theory Spec2Isabelle
  imports Main
begin

section \<open>Data model of \<open>src/load-dotenv.ts\<close>\<close>

text \<open>
  A JavaScript \<open>Record<string, string>\<close> is modelled by the list of its own
  enumerable properties in insertion order, which is what \<open>Object.entries\<close> walks
  through. Assigning to a property that exists replaces its value where it stands;
  assigning to a new property appends it. Keys that look like array indices (which
  JavaScript enumerates first) are outside the model. The theorems below read a mapping
  through \<open>map_of\<close>, so they do not depend on the order of the entries; the order
  shows only where a whole mapping is displayed in an example.
\<close>

type_synonym env = "(string \<times> string) list"

definition has_key :: "string \<Rightarrow> env \<Rightarrow> bool" where
  "has_key k e = (map_of e k \<noteq> None)"

fun set_prop :: "string \<Rightarrow> string \<Rightarrow> env \<Rightarrow> env" where
  "set_prop k v [] = [(k, v)]"
| "set_prop k v ((k', v') # kvs) =
     (if k = k' then (k, v) # kvs else (k', v') # set_prop k v kvs)"

text \<open>\<open>interface LoadDotEnvOptions { nodeEnv?: string; overload?: boolean }\<close>\<close>

record LoadDotEnvOptions =
  nodeEnv :: "string option"
  overload :: "bool option"

text \<open>The default argument \<open>options = {}\<close>.\<close>

definition no_options :: LoadDotEnvOptions where
  "no_options = \<lparr>nodeEnv = None, overload = None\<rparr>"

text \<open>
  What the collaborators outside the repository answer. \<open>access\<close> of \<open>fs/promises\<close>
  resolves (\<open>None\<close>) or rejects with an error; \<open>config\<close> of dotenvx returns an object
  with the parsed pairs and, on failure, an \<open>error\<close> that may carry a \<open>code\<close>.
\<close>

datatype fs_error = ENOENT | ENOTDIR | EACCES | EOTHER string

record config_error =
  err_code :: "string option"
  err_message :: string

record config_result =
  parsed :: env
  error :: "config_error option"

text \<open>
  The environment a call runs in: the file system seen through \<open>access\<close>, the parser
  behind \<open>config\<close> (its answer may depend on the path, on the target mapping it expands
  variables against and on the destructive flag), \<open>path.join\<close>, and the ambient variable
  \<open>process.env.NODE_ENV\<close>. These are parameters: the theorems hold for all of them.
\<close>

record world =
  access :: "string \<Rightarrow> fs_error option"
  parse :: "string \<Rightarrow> env \<Rightarrow> bool \<Rightarrow> config_result"
  path_join :: "string \<Rightarrow> string \<Rightarrow> string"
  process_env_NODE_ENV :: "string option"

text \<open>What a call does besides returning: \<open>console.error\<close> lines and file-system probes.\<close>

record effects =
  console_error :: "(string \<times> config_error) list"
  accessed :: "string list"

definition no_effects :: effects where
  "no_effects = \<lparr>console_error = [], accessed = []\<rparr>"

section \<open>The resolver\<close>

text \<open>\<open>fileExists\<close>: the \<open>try\<close>/\<open>catch\<close> turns every rejection of \<open>access\<close> into \<open>false\<close>.\<close>

definition fileExists :: "world \<Rightarrow> string \<Rightarrow> bool" where
  "fileExists w filePath = (case access w filePath of None \<Rightarrow> True | Some _ \<Rightarrow> False)"

text \<open>
  Modelled from the spec: the \<open>config\<close> function of the dotenvx library, which is not
  part of the repository. Following section 4.3 of the specification it parses the file
  against the target mapping and writes the resulting keys into the target, overwriting
  existing keys in destructive mode and skipping keys already present otherwise; failures
  are signalled in the returned object, never thrown.
\<close>

fun write_keys :: "bool \<Rightarrow> env \<Rightarrow> env \<Rightarrow> env" where
  "write_keys destructive [] target = target"
| "write_keys destructive ((k, v) # kvs) target =
     write_keys destructive kvs
       (if destructive \<or> \<not> has_key k target then set_prop k v target else target)"

definition config :: "world \<Rightarrow> string \<Rightarrow> env \<Rightarrow> bool \<Rightarrow> env \<times> config_result" where
  "config w path processEnv destructive =
     (let result = parse w path processEnv destructive
      in (write_keys destructive (parsed result) processEnv, result))"

text \<open>
  \<open>options.nodeEnv || process.env.NODE_ENV || "development"\<close>: \<open>||\<close> passes over
  \<open>undefined\<close> and over the empty string.
\<close>

definition truthy :: "string option \<Rightarrow> bool" where
  "truthy x = (case x of None \<Rightarrow> False | Some s \<Rightarrow> s \<noteq> [])"

definition js_or :: "string option \<Rightarrow> string option \<Rightarrow> string option" where
  "js_or a b = (if truthy a then a else b)"

definition js_or_default :: "string option \<Rightarrow> string \<Rightarrow> string" where
  "js_or_default a d = (case a of None \<Rightarrow> d | Some s \<Rightarrow> if s \<noteq> [] then s else d)"

definition effective_nodeEnv :: "world \<Rightarrow> LoadDotEnvOptions \<Rightarrow> string" where
  "effective_nodeEnv w options =
     js_or_default (js_or (nodeEnv options) (process_env_NODE_ENV w)) ''development''"

text \<open>The array \<open>files\<close> (lines 26 to 31).\<close>

definition candidate_files :: "world \<Rightarrow> string \<Rightarrow> string \<Rightarrow> string list" where
  "candidate_files w basePath ne =
     [path_join w basePath (''.env.'' @ ne @ ''.local''),
      path_join w basePath (''.env.'' @ ne),
      path_join w basePath ''.env.local'',
      path_join w basePath ''.env'']"

text \<open>The check after the forward \<open>config\<close> call (lines 42 to 44).\<close>

definition log_error :: "string \<Rightarrow> config_result \<Rightarrow> effects \<Rightarrow> effects" where
  "log_error file result fx =
     (case error result of
        None \<Rightarrow> fx
      | Some e \<Rightarrow>
          if err_code e \<noteq> Some ''MISSING_ENV_FILE''
          then fx\<lparr>console_error := console_error fx @ [(''Error loading '' @ file @ '':'', e)]\<rparr>
          else fx)"

text \<open>The first loop (lines 33 to 46): \<open>overload: false\<close>, the result is inspected.\<close>

fun forward_pass :: "world \<Rightarrow> string list \<Rightarrow> env \<times> effects \<Rightarrow> env \<times> effects" where
  "forward_pass w [] st = st"
| "forward_pass w (file # files) (processEnv, fx) =
     (let fx1 = fx\<lparr>accessed := accessed fx @ [file]\<rparr>
      in if fileExists w file
         then (case config w file processEnv False of
                 (processEnv', result) \<Rightarrow>
                   forward_pass w files (processEnv', log_error file result fx1))
         else forward_pass w files (processEnv, fx1))"

text \<open>The second loop (lines 50 to 59): \<open>overload: true\<close>, the result is dropped.\<close>

fun reverse_pass :: "world \<Rightarrow> string list \<Rightarrow> env \<times> effects \<Rightarrow> env \<times> effects" where
  "reverse_pass w [] st = st"
| "reverse_pass w (file # files) (overloadedEnv, fx) =
     (let fx1 = fx\<lparr>accessed := accessed fx @ [file]\<rparr>
      in if fileExists w file
         then (case config w file overloadedEnv True of
                 (overloadedEnv', result) \<Rightarrow> reverse_pass w files (overloadedEnv', fx1))
         else reverse_pass w files (overloadedEnv, fx1))"

text \<open>The copy loop (lines 60 to 62).\<close>

fun copy_entries :: "env \<Rightarrow> env \<Rightarrow> env" where
  "copy_entries [] processEnv = processEnv"
| "copy_entries ((key, val) # entries) processEnv =
     copy_entries entries (set_prop key val processEnv)"

definition loadDotEnvFiles :: "world \<Rightarrow> string \<Rightarrow> LoadDotEnvOptions \<Rightarrow> env \<times> effects" where
  "loadDotEnvFiles w basePath options =
     (let files = candidate_files w basePath (effective_nodeEnv w options)
      in case forward_pass w files ([], no_effects) of
           (processEnv, fx) \<Rightarrow>
             if overload options = Some True
             then (case reverse_pass w (rev files) ([], fx) of
                     (overloadedEnv, fx') \<Rightarrow> (copy_entries overloadedEnv processEnv, fx'))
             else (processEnv, fx))"

section \<open>The \<open>shell.env\<close> hook\<close>

text \<open>
  The hook receives references. The heap holds the \<open>output\<close> objects (each with a field
  \<open>env\<close> that refers to a mapping) and the mappings themselves, so that replacing
  \<open>output.env\<close> and writing into the mapping it refers to are different effects.
\<close>

type_synonym addr = nat

record heap =
  output_env :: "addr \<Rightarrow> addr"
  records :: "addr \<Rightarrow> env"
  ordinary :: "addr \<Rightarrow> bool"

text \<open>
  \<open>key in obj\<close> holds for the own properties of \<open>obj\<close> and for the names it inherits.
  A mapping of the heap is either an ordinary object, which inherits the properties of
  \<open>Object.prototype\<close>, or an object without prototype (\<open>Object.create(null)\<close>), which
  inherits nothing; \<open>ordinary\<close> tells which.
\<close>

definition Object_prototype_keys :: "string list" where
  "Object_prototype_keys =
     [''constructor'', ''hasOwnProperty'', ''isPrototypeOf'', ''propertyIsEnumerable'',
      ''toLocaleString'', ''toString'', ''valueOf'', ''__proto__'', ''__defineGetter__'',
      ''__defineSetter__'', ''__lookupGetter__'', ''__lookupSetter__'']"

definition inherited_keys :: "heap \<Rightarrow> addr \<Rightarrow> string list" where
  "inherited_keys h a = (if ordinary h a then Object_prototype_keys else [])"

definition in_op :: "string \<Rightarrow> string list \<Rightarrow> env \<Rightarrow> bool" where
  "in_op key inherited obj = (has_key key obj \<or> key \<in> set inherited)"

record shell_input =
  cwd :: "string option"

text \<open>The loop over \<open>Object.entries(loaded)\<close> (lines 76 to 80).\<close>

fun merge_loaded :: "string list \<Rightarrow> env \<Rightarrow> env \<Rightarrow> env" where
  "merge_loaded inherited [] out = out"
| "merge_loaded inherited ((key, val) # entries) out =
     merge_loaded inherited entries
       (if \<not> in_op key inherited out then set_prop key val out else out)"

definition shell_env :: "world \<Rightarrow> string \<Rightarrow> shell_input \<Rightarrow> addr \<Rightarrow> heap \<Rightarrow> heap \<times> effects" where
  "shell_env w directory input output h =
     (let basePath = (case cwd input of Some c \<Rightarrow> c | None \<Rightarrow> directory);
          ne = js_or_default (process_env_NODE_ENV w) ''development''
      in case loadDotEnvFiles w basePath \<lparr>nodeEnv = Some ne, overload = None\<rparr> of
           (loaded, fx) \<Rightarrow>
             (let a = output_env h output;
                  inherited = inherited_keys h a;
                  e1 = merge_loaded inherited loaded (records h a);
                  e2 = (if \<not> in_op ''NODE_ENV'' inherited e1
                        then set_prop ''NODE_ENV'' ne e1 else e1)
              in (h\<lparr>records := (records h)(a := e2)\<rparr>, fx)))"

section \<open>A concrete world\<close>

text \<open>
  One world to run the definitions in, with \<open>path.join\<close> on plain relative names:
  \<^item> \<open>/app\<close> holds \<open>.env.development.local\<close> (\<open>FOO=top\<close>), a malformed \<open>.env.local\<close> and
    \<open>.env\<close> (\<open>FOO=base\<close>, \<open>BAR=baz\<close>);
  \<^item> \<open>/hook\<close> holds only \<open>.env\<close> (\<open>FOO=loaded\<close>, \<open>BAR=baz\<close>);
  \<^item> \<open>/vault\<close> holds only \<open>.env\<close>, which parses in non-destructive mode and fails to
    decrypt in destructive mode;
  \<^item> nothing else exists, and \<open>NODE_ENV\<close> is not set.
\<close>

definition slash_join :: "string \<Rightarrow> string \<Rightarrow> string" where
  "slash_join dir name = dir @ ''/'' @ name"

definition missing_env_file :: config_error where
  "missing_env_file = \<lparr>err_code = Some ''MISSING_ENV_FILE'', err_message = ''missing file''\<rparr>"

definition malformed :: config_error where
  "malformed = \<lparr>err_code = None, err_message = ''malformed line''\<rparr>"

definition decryption_failed :: config_error where
  "decryption_failed = \<lparr>err_code = Some ''DECRYPTION_FAILED'', err_message = ''no private key''\<rparr>"

definition demo_access :: "string \<Rightarrow> fs_error option" where
  "demo_access p =
     (if p = ''/app/.env.development.local'' \<or> p = ''/app/.env.local'' \<or> p = ''/app/.env''
         \<or> p = ''/hook/.env'' \<or> p = ''/vault/.env''
      then None else Some ENOENT)"

definition demo_parse :: "string \<Rightarrow> env \<Rightarrow> bool \<Rightarrow> config_result" where
  "demo_parse p target destructive =
     (if p = ''/app/.env.development.local''
      then \<lparr>parsed = [(''FOO'', ''top'')], error = None\<rparr>
      else if p = ''/app/.env.local''
      then \<lparr>parsed = [], error = Some malformed\<rparr>
      else if p = ''/app/.env''
      then \<lparr>parsed = [(''FOO'', ''base''), (''BAR'', ''baz'')], error = None\<rparr>
      else if p = ''/hook/.env''
      then \<lparr>parsed = [(''FOO'', ''loaded''), (''BAR'', ''baz'')], error = None\<rparr>
      else if p = ''/vault/.env''
      then (if destructive
            then \<lparr>parsed = [], error = Some decryption_failed\<rparr>
            else \<lparr>parsed = [(''TOKEN'', ''plain'')], error = None\<rparr>)
      else \<lparr>parsed = [], error = Some missing_env_file\<rparr>)"

definition demo_world :: world where
  "demo_world =
     \<lparr>access = demo_access, parse = demo_parse, path_join = slash_join,
      process_env_NODE_ENV = None\<rparr>"

text \<open>
  The same files read by a parser that, like dotenvx in non-destructive mode, returns for
  a key the target already holds the value of the target instead of the value written in
  the file.
\<close>

definition echo :: "env \<Rightarrow> env \<Rightarrow> env" where
  "echo target pairs =
     map (\<lambda>(k, v). (k, case map_of target k of Some held \<Rightarrow> held | None \<Rightarrow> v)) pairs"

definition echo_parse :: "string \<Rightarrow> env \<Rightarrow> bool \<Rightarrow> config_result" where
  "echo_parse p target destructive =
     (if destructive then demo_parse p target True
      else (demo_parse p target False)
             \<lparr>parsed := echo target (parsed (demo_parse p target False))\<rparr>)"

definition echo_world :: world where
  "echo_world = demo_world\<lparr>parse := echo_parse\<rparr>"

text \<open>
  A heap with one \<open>output\<close> object, at 0, whose \<open>env\<close> is the ordinary object at 1.
\<close>

definition demo_heap :: heap where
  "demo_heap =
     \<lparr>output_env = (\<lambda>_. 1),
      records = (\<lambda>a. if a = 1 then [(''FOO'', ''existing'')] else []),
      ordinary = (\<lambda>_. True)\<rparr>"

section \<open>Mappings\<close>

lemma map_of_set_prop: "map_of (set_prop k v e) = (map_of e)(k \<mapsto> v)"
  by (induction e) (auto simp: fun_eq_iff)



lemma map_of_write_keys_False:
  "map_of (write_keys False ps t) k =
     (case map_of t k of Some v \<Rightarrow> Some v | None \<Rightarrow> map_of ps k)"
  by (induction ps arbitrary: t) (auto simp: map_of_set_prop has_key_def split: option.splits)




lemma map_of_merge_loaded:
  "map_of (merge_loaded inherited l out) k =
     (case map_of out k of
        Some v \<Rightarrow> Some v
      | None \<Rightarrow> if k \<in> set inherited then None else map_of l k)"
  by (induction l arbitrary: out)
     (auto simp: map_of_set_prop has_key_def in_op_def split: option.splits)


section \<open>The two passes\<close>

lemma forward_pass_append:
  "forward_pass w (xs @ ys) st = forward_pass w ys (forward_pass w xs st)"
  by (induction w xs st rule: forward_pass.induct) (auto simp: Let_def split: prod.splits)


text \<open>The mapping a pass builds does not depend on the effects recorded so far.\<close>

lemma forward_pass_fst: "fst (forward_pass w fs (e, fx)) = fst (forward_pass w fs (e, fx'))"
proof (induction fs arbitrary: e fx fx')
  case Nil
  show ?case by simp
next
  case (Cons f fs)
  show ?case
    by (simp add: Let_def config_def) (use Cons.IH in blast)
qed


lemma accessed_log_error: "accessed (log_error f r fx) = accessed fx"
  by (simp add: log_error_def split: option.splits)

lemma accessed_forward_pass:
  "accessed (snd (forward_pass w fs (e, fx))) = accessed fx @ fs"
  by (induction fs arbitrary: e fx) (simp_all add: Let_def config_def accessed_log_error)

lemma accessed_reverse_pass:
  "accessed (snd (reverse_pass w fs (e, fx))) = accessed fx @ fs"
  by (induction fs arbitrary: e fx) (simp_all add: Let_def config_def)

lemma console_reverse_pass:
  "console_error (snd (reverse_pass w fs (e, fx))) = console_error fx"
  by (induction fs arbitrary: e fx) (simp_all add: Let_def config_def)


lemma forward_pass_keeps:
  "map_of e k = Some v \<Longrightarrow> map_of (fst (forward_pass w fs (e, fx))) k = Some v"
  by (induction fs arbitrary: e fx) (simp_all add: Let_def config_def map_of_write_keys_False)

lemma forward_pass_absent:
  "\<forall>g\<in>set fs. \<not> fileExists w g \<Longrightarrow>
   forward_pass w fs (e, fx) = (e, fx\<lparr>accessed := accessed fx @ fs\<rparr>)"
  by (induction fs arbitrary: e fx) (simp_all add: Let_def)

lemma reverse_pass_absent:
  "\<forall>g\<in>set fs. \<not> fileExists w g \<Longrightarrow>
   reverse_pass w fs (e, fx) = (e, fx\<lparr>accessed := accessed fx @ fs\<rparr>)"
  by (induction fs arbitrary: e fx) (simp_all add: Let_def)

text \<open>
  The first pass gives a key the value of the first file, in the order of the list, that
  exists and defines it. What a file defines is what the parser returns for it at the
  moment the loop reads it, that is against the mapping built from the files before it.
\<close>

lemma forward_pass_step:
  "fst (forward_pass w (fs @ [f]) (e, fx)) =
     (let e1 = fst (forward_pass w fs (e, fx))
      in if fileExists w f then write_keys False (parsed (parse w f e1 False)) e1 else e1)"
  by (cases "forward_pass w fs (e, fx)")
     (simp add: forward_pass_append Let_def config_def)

lemma forward_pass_untouched:
  assumes "\<forall>i<length fs. fileExists w (fs ! i) \<longrightarrow>
             map_of (parsed (parse w (fs ! i) (fst (forward_pass w (take i fs) (e, fx))) False)) k
               = None"
  shows "map_of (fst (forward_pass w fs (e, fx))) k = map_of e k"
  using assms
proof (induction fs rule: rev_induct)
  case Nil
  show ?case by simp
next
  case (snoc f fs)
  have "\<forall>i<length fs. fileExists w (fs ! i) \<longrightarrow>
          map_of (parsed (parse w (fs ! i) (fst (forward_pass w (take i fs) (e, fx))) False)) k
            = None"
  proof (intro allI impI)
    fix i assume i: "i < length fs" and ex: "fileExists w (fs ! i)"
    from snoc.prems [rule_format, of i] i ex
    show "map_of (parsed (parse w (fs ! i) (fst (forward_pass w (take i fs) (e, fx))) False)) k
        = None"
      by (simp add: nth_append)
  qed
  then have before: "map_of (fst (forward_pass w fs (e, fx))) k = map_of e k"
    by (rule snoc.IH)
  have last: "fileExists w f \<Longrightarrow>
      map_of (parsed (parse w f (fst (forward_pass w fs (e, fx))) False)) k = None"
    using snoc.prems [rule_format, of "length fs"] by simp
  show ?case
    using before last
    by (simp add: forward_pass_step Let_def map_of_write_keys_False split: option.splits)
qed

lemma forward_pass_first_wins:
  assumes "\<forall>i<length higher. fileExists w (higher ! i) \<longrightarrow>
             map_of (parsed (parse w (higher ! i)
                (fst (forward_pass w (take i higher) ([], fx))) False)) k = None"
    and "fileExists w f"
    and "map_of (parsed (parse w f (fst (forward_pass w higher ([], fx))) False)) k = Some v"
  shows "map_of (fst (forward_pass w (higher @ f # lower) ([], fx))) k = Some v"
proof -
  have none: "map_of (fst (forward_pass w higher ([], fx))) k = None"
    using forward_pass_untouched [OF assms(1)] by simp
  have some: "map_of (fst (forward_pass w (higher @ [f]) ([], fx))) k = Some v"
    using assms(2,3) none by (simp add: forward_pass_step Let_def map_of_write_keys_False)
  obtain e2 fx2 where s2: "forward_pass w (higher @ [f]) ([], fx) = (e2, fx2)"
    by (cases "forward_pass w (higher @ [f]) ([], fx)")
  have "forward_pass w (higher @ f # lower) ([], fx) = forward_pass w lower (e2, fx2)"
    using forward_pass_append [of w "higher @ [f]" lower "([], fx)"] s2 by simp
  then show ?thesis
    using forward_pass_keeps [of e2 k v w lower fx2] some s2 by simp
qed

section \<open>The candidate list\<close>

text \<open>
  Claim C3. For every base path, environment name and options, the files that
  \<open>loadDotEnvFiles\<close> probes are the four paths \<open>.env.<env>.local\<close>, \<open>.env.<env>\<close>,
  \<open>.env.local\<close>, \<open>.env\<close> joined to the base path, in that order; the options only choose
  the name \<open><env>\<close> and whether the same four are probed a second time, in reverse.
\<close>

theorem candidate_list_fixed:
  "accessed (snd (loadDotEnvFiles w basePath options)) =
     (let ne = effective_nodeEnv w options;
          files = [path_join w basePath (''.env.'' @ ne @ ''.local''),
                   path_join w basePath (''.env.'' @ ne),
                   path_join w basePath ''.env.local'',
                   path_join w basePath ''.env'']
      in if overload options = Some True then files @ rev files else files)"
proof -
  let ?files = "candidate_files w basePath (effective_nodeEnv w options)"
  obtain p fx where fw: "forward_pass w ?files ([], no_effects) = (p, fx)"
    by (cases "forward_pass w ?files ([], no_effects)")
  have a1: "accessed fx = ?files"
    using accessed_forward_pass [of w ?files "[]" no_effects] fw
    by (simp add: no_effects_def)
  obtain ov fx' where rv: "reverse_pass w (rev ?files) ([], fx) = (ov, fx')"
    by (cases "reverse_pass w (rev ?files) ([], fx)")
  have a2: "accessed fx' = ?files @ rev ?files"
    using accessed_reverse_pass [of w "rev ?files" "[]" fx] rv a1 by simp
  show ?thesis
    using fw rv a1 a2 by (simp add: loadDotEnvFiles_def Let_def candidate_files_def)
qed

theorem candidate_list_fixed_witness:
  "accessed (snd (loadDotEnvFiles demo_world ''/app''
      \<lparr>nodeEnv = Some ''test'', overload = Some True\<rparr>)) =
     [''/app/.env.test.local'', ''/app/.env.test'', ''/app/.env.local'', ''/app/.env'',
      ''/app/.env'', ''/app/.env.local'', ''/app/.env.test'', ''/app/.env.test.local'']"
  using candidate_list_fixed
    [of demo_world "''/app''" "\<lparr>nodeEnv = Some ''test'', overload = Some True\<rparr>"]
  by (simp add: demo_world_def slash_join_def effective_nodeEnv_def js_or_def truthy_def
      js_or_default_def Let_def)

section \<open>First pass: the highest-precedence file wins\<close>

lemma loadDotEnvFiles_no_overload:
  "overload options \<noteq> Some True \<Longrightarrow>
   loadDotEnvFiles w basePath options =
     forward_pass w (candidate_files w basePath (effective_nodeEnv w options)) ([], no_effects)"
  by (simp add: loadDotEnvFiles_def Let_def split: prod.splits)

text \<open>
  Claim C1. With \<open>overload\<close> false or omitted, split the candidate list at a file \<open>f\<close>
  that exists and defines the key \<open>k\<close> with value \<open>v\<close>, such that no existing file of
  higher precedence defines \<open>k\<close>: the returned mapping gives \<open>k\<close> the value \<open>v\<close>, whatever
  the files of lower precedence say. What a file defines is read off the one call the
  loop makes for it: the parser's answer, in non-destructive mode, against the mapping
  the files above it have built.
\<close>

theorem highest_precedence_file_wins:
  assumes "overload options \<noteq> Some True"
    and "candidate_files w basePath (effective_nodeEnv w options) = higher @ f # lower"
    and "\<forall>i<length higher. fileExists w (higher ! i) \<longrightarrow>
           map_of (parsed (parse w (higher ! i)
              (fst (forward_pass w (take i higher) ([], no_effects))) False)) k = None"
    and "fileExists w f"
    and "map_of (parsed (parse w f (fst (forward_pass w higher ([], no_effects))) False)) k
           = Some v"
  shows "map_of (fst (loadDotEnvFiles w basePath options)) k = Some v"
  using forward_pass_first_wins [OF assms(3,4,5), of lower] assms(1,2)
  by (simp add: loadDotEnvFiles_no_overload)

text \<open>
  In \<open>/app\<close> the key \<open>FOO\<close> is defined by \<open>.env.development.local\<close> and by \<open>.env\<close>, and
  \<open>BAR\<close> by \<open>.env\<close> alone, below a malformed \<open>.env.local\<close>. The parser is the one that
  answers with the target's value for a key the target holds.
\<close>

theorem highest_precedence_file_wins_witness:
  "map_of (fst (loadDotEnvFiles echo_world ''/app'' no_options)) ''FOO'' = Some ''top'' \<and>
   map_of (fst (loadDotEnvFiles echo_world ''/app'' no_options)) ''BAR'' = Some ''baz''"
proof -
  note defs = echo_world_def echo_parse_def echo_def demo_world_def demo_access_def
    demo_parse_def slash_join_def no_options_def candidate_files_def effective_nodeEnv_def
    js_or_def truthy_def js_or_default_def fileExists_def config_def has_key_def
    log_error_def no_effects_def Let_def
  have 1: "map_of (fst (loadDotEnvFiles echo_world ''/app'' no_options)) ''FOO'' = Some ''top''"
    by (rule highest_precedence_file_wins [of no_options echo_world "''/app''" "[]"
          "''/app/.env.development.local''"
          "[''/app/.env.development'', ''/app/.env.local'', ''/app/.env'']"])
       (simp_all add: defs)
  have 2: "map_of (fst (loadDotEnvFiles echo_world ''/app'' no_options)) ''BAR'' = Some ''baz''"
    by (rule highest_precedence_file_wins [of no_options echo_world "''/app''"
          "[''/app/.env.development.local'', ''/app/.env.development'', ''/app/.env.local'']"
          "''/app/.env''" "[]"])
       (simp_all add: defs All_less_Suc)
  show ?thesis using 1 2 by (rule conjI)
qed

section \<open>No candidate file\<close>

text \<open>
  Claim C5. \<open>loadDotEnvFiles\<close> has no failing branch: the one call that can reject,
  \<open>access\<close>, is caught by \<open>fileExists\<close> whatever the error, and \<open>config\<close> reports its
  failures in the object it returns. When \<open>access\<close> rejects all four candidates (no such
  file, no such directory, no permission or anything else), the returned mapping is empty
  and nothing is logged, with or without \<open>overload\<close>.
\<close>

theorem no_candidate_file:
  assumes "\<forall>f\<in>set (candidate_files w basePath (effective_nodeEnv w options)). access w f \<noteq> None"
  shows "fst (loadDotEnvFiles w basePath options) = [] \<and>
         console_error (snd (loadDotEnvFiles w basePath options)) = []"
proof -
  let ?files = "candidate_files w basePath (effective_nodeEnv w options)"
  have absent: "\<forall>g\<in>set ?files. \<not> fileExists w g"
    using assms by (auto simp: fileExists_def split: option.splits)
  then have absent': "\<forall>g\<in>set (rev ?files). \<not> fileExists w g"
    by simp
  show ?thesis
    by (simp add: loadDotEnvFiles_def Let_def forward_pass_absent [OF absent]
        reverse_pass_absent [OF absent'] no_effects_def)
qed

theorem no_candidate_file_witness:
  "fst (loadDotEnvFiles demo_world ''/nowhere'' \<lparr>nodeEnv = None, overload = Some True\<rparr>) = [] \<and>
   console_error (snd (loadDotEnvFiles demo_world ''/nowhere''
      \<lparr>nodeEnv = None, overload = Some True\<rparr>)) = []"
  using no_candidate_file [of demo_world "''/nowhere''" "\<lparr>nodeEnv = None, overload = Some True\<rparr>"]
  by (simp add: demo_world_def demo_access_def slash_join_def
      candidate_files_def effective_nodeEnv_def js_or_def truthy_def js_or_default_def)

section \<open>Second pass: \<open>overload\<close>\<close>





section \<open>Defaults\<close>

text \<open>
  Claim C7 says the name is \<open>options.nodeEnv\<close> when supplied. Supplied as the empty
  string, with \<open>NODE_ENV\<close> unset, the name used is \<open>development\<close>, not the empty string.
\<close>

theorem empty_nodeEnv_option_not_used:
  "nodeEnv \<lparr>nodeEnv = Some '''', overload = None\<rparr> = Some '''' \<and>
   effective_nodeEnv demo_world \<lparr>nodeEnv = Some '''', overload = None\<rparr> = ''development''"
  by (simp add: effective_nodeEnv_def js_or_def truthy_def js_or_default_def demo_world_def)

text \<open>
  Claim C7, amended. The name used by \<open>loadDotEnvFiles\<close> is \<open>options.nodeEnv\<close> when it is
  supplied and not empty, otherwise \<open>NODE_ENV\<close> when it is set and not empty, otherwise
  \<open>development\<close>. When \<open>overload\<close> is omitted the call is the call with \<open>overload\<close>
  false: its result and its effects are those of the first pass alone.
\<close>

theorem effective_nodeEnv_defaults:
  "effective_nodeEnv w options =
     (case nodeEnv options of
        Some (c # cs) \<Rightarrow> c # cs
      | _ \<Rightarrow> (case process_env_NODE_ENV w of
                Some (c # cs) \<Rightarrow> c # cs
              | _ \<Rightarrow> ''development'')) \<and>
   (overload options = None \<longrightarrow>
      loadDotEnvFiles w basePath options =
        loadDotEnvFiles w basePath (options\<lparr>overload := Some False\<rparr>) \<and>
      loadDotEnvFiles w basePath options =
        forward_pass w (candidate_files w basePath (effective_nodeEnv w options))
          ([], no_effects))"
  by (auto simp: effective_nodeEnv_def js_or_def truthy_def js_or_default_def
      loadDotEnvFiles_no_overload split: option.splits list.splits)

theorem effective_nodeEnv_defaults_witness:
  "effective_nodeEnv demo_world \<lparr>nodeEnv = Some ''test'', overload = None\<rparr> = ''test'' \<and>
   effective_nodeEnv (demo_world\<lparr>process_env_NODE_ENV := Some ''production''\<rparr>) no_options
     = ''production'' \<and>
   effective_nodeEnv demo_world no_options = ''development'' \<and>
   loadDotEnvFiles demo_world ''/app'' no_options =
     loadDotEnvFiles demo_world ''/app'' \<lparr>nodeEnv = None, overload = Some False\<rparr>"
  using effective_nodeEnv_defaults [of demo_world "\<lparr>nodeEnv = Some ''test'', overload = None\<rparr>" "''/app''"]
    effective_nodeEnv_defaults [of "demo_world\<lparr>process_env_NODE_ENV := Some ''production''\<rparr>" no_options "''/app''"]
    effective_nodeEnv_defaults [of demo_world no_options "''/app''"]
  by (simp add: demo_world_def no_options_def)

section \<open>The empty environment name\<close>




section \<open>Errors reported by the parser\<close>


section \<open>The hook: merging into \<open>output.env\<close>\<close>

lemma hook_nodeEnv_effective:
  "effective_nodeEnv w
     \<lparr>nodeEnv = Some (js_or_default (process_env_NODE_ENV w) ''development''), overload = None\<rparr>
   = js_or_default (process_env_NODE_ENV w) ''development''"
  by (simp add: effective_nodeEnv_def js_or_def truthy_def js_or_default_def
      split: option.splits)

lemma NODE_ENV_not_inherited: "''NODE_ENV'' \<notin> set (inherited_keys h a)"
  by (simp add: inherited_keys_def Object_prototype_keys_def)

lemma shell_env_unfold:
  "shell_env w directory input output h =
     (let basePath = (case cwd input of Some c \<Rightarrow> c | None \<Rightarrow> directory);
          ne = js_or_default (process_env_NODE_ENV w) ''development'';
          st = forward_pass w (candidate_files w basePath ne) ([], no_effects);
          a = output_env h output;
          e1 = merge_loaded (inherited_keys h a) (fst st) (records h a);
          e2 = (if \<not> has_key ''NODE_ENV'' e1 then set_prop ''NODE_ENV'' ne e1 else e1)
      in (h\<lparr>records := (records h)(a := e2)\<rparr>, snd st))"
  by (simp add: shell_env_def Let_def loadDotEnvFiles_no_overload hook_nodeEnv_effective
      in_op_def NODE_ENV_not_inherited split: prod.splits)

text \<open>What the hook leaves under each key of \<open>output.env\<close>.\<close>

lemma shell_env_lookup:
  "map_of (records (fst (shell_env w directory input output h)) (output_env h output)) k =
     (case map_of (records h (output_env h output)) k of
        Some v \<Rightarrow> Some v
      | None \<Rightarrow>
          if k \<in> set (inherited_keys h (output_env h output)) then None
          else
            (case map_of (fst (forward_pass w
                    (candidate_files w (case cwd input of Some c \<Rightarrow> c | None \<Rightarrow> directory)
                       (js_or_default (process_env_NODE_ENV w) ''development''))
                    ([], no_effects))) k of
               Some v \<Rightarrow> Some v
             | None \<Rightarrow>
                 if k = ''NODE_ENV''
                 then Some (js_or_default (process_env_NODE_ENV w) ''development'')
                 else None))"
  using NODE_ENV_not_inherited [of h "output_env h output"]
  by (auto simp: shell_env_unfold Let_def has_key_def map_of_set_prop map_of_merge_loaded
      split: option.splits)

text \<open>
  Claim C4. After the hook every key that \<open>output.env\<close> held before still has the value
  it had, so none is removed or overwritten; \<open>output.env\<close> refers to the same mapping as
  before and no other mapping of the heap changes, so the mapping is written in place.
  A loaded value is written only under a key for which \<open>key in output.env\<close> was false:
  any other key than \<open>NODE_ENV\<close> ends with the value \<open>output.env\<close> had for it, or else,
  unless \<open>output.env\<close> inherits the name, with the loaded value. Merging
  \<open>{FOO: "loaded", BAR: "baz"}\<close> into \<open>{FOO: "existing"}\<close> (lines 76 to 80) yields
  \<open>{FOO: "existing", BAR: "baz"}\<close>, for an ordinary object and for one without prototype.
\<close>

theorem shell_env_keeps_existing:
  "(let a = output_env h output;
        h' = fst (shell_env w directory input output h);
        basePath = (case cwd input of Some c \<Rightarrow> c | None \<Rightarrow> directory);
        ne = js_or_default (process_env_NODE_ENV w) ''development'';
        loaded = fst (loadDotEnvFiles w basePath \<lparr>nodeEnv = Some ne, overload = None\<rparr>)
    in (\<forall>k v. map_of (records h a) k = Some v \<longrightarrow> map_of (records h' a) k = Some v) \<and>
       output_env h' = output_env h \<and>
       ordinary h' = ordinary h \<and>
       (\<forall>b. b \<noteq> a \<longrightarrow> records h' b = records h b) \<and>
       (\<forall>k. k \<noteq> ''NODE_ENV'' \<longrightarrow>
          map_of (records h' a) k =
            (case map_of (records h a) k of
               Some v \<Rightarrow> Some v
             | None \<Rightarrow> if k \<in> set (inherited_keys h a) then None else map_of loaded k)) \<and>
       merge_loaded Object_prototype_keys
           [(''FOO'', ''loaded''), (''BAR'', ''baz'')] [(''FOO'', ''existing'')] =
         [(''FOO'', ''existing''), (''BAR'', ''baz'')] \<and>
       merge_loaded [] [(''FOO'', ''loaded''), (''BAR'', ''baz'')] [(''FOO'', ''existing'')] =
         [(''FOO'', ''existing''), (''BAR'', ''baz'')])"
proof -
  let ?a = "output_env h output"
  let ?h' = "fst (shell_env w directory input output h)"
  let ?basePath = "case cwd input of Some c \<Rightarrow> c | None \<Rightarrow> directory"
  let ?ne = "js_or_default (process_env_NODE_ENV w) ''development''"
  let ?loaded = "fst (loadDotEnvFiles w ?basePath \<lparr>nodeEnv = Some ?ne, overload = None\<rparr>)"
  have keep: "map_of (records ?h' ?a) k = Some v" if "map_of (records h ?a) k = Some v" for k v
    using that by (simp add: shell_env_lookup)
  have same: "output_env ?h' = output_env h" and kind: "ordinary ?h' = ordinary h"
    by (simp_all add: shell_env_unfold Let_def)
  have others: "records ?h' b = records h b" if "b \<noteq> ?a" for b
    using that by (simp add: shell_env_unfold Let_def)
  have law: "map_of (records ?h' ?a) k =
      (case map_of (records h ?a) k of
         Some v \<Rightarrow> Some v
       | None \<Rightarrow> if k \<in> set (inherited_keys h ?a) then None else map_of ?loaded k)"
    if "k \<noteq> ''NODE_ENV''" for k
    using that
    by (simp add: shell_env_lookup loadDotEnvFiles_no_overload hook_nodeEnv_effective
        split: option.splits)
  have ex1: "merge_loaded Object_prototype_keys
      [(''FOO'', ''loaded''), (''BAR'', ''baz'')] [(''FOO'', ''existing'')] =
      [(''FOO'', ''existing''), (''BAR'', ''baz'')]"
    by (simp add: in_op_def has_key_def Object_prototype_keys_def)
  have ex2: "merge_loaded [] [(''FOO'', ''loaded''), (''BAR'', ''baz'')]
      [(''FOO'', ''existing'')] = [(''FOO'', ''existing''), (''BAR'', ''baz'')]"
    by (simp add: in_op_def has_key_def)
  from keep same kind others law ex1 ex2 show ?thesis
    unfolding Let_def by (intro conjI allI impI) assumption+
qed

text \<open>
  The hook run in \<open>/hook\<close> on that output mapping; lines 82 to 84 then add \<open>NODE_ENV\<close>.
  A loaded key \<open>toString\<close> would not be written: the ordinary object inherits the name.
\<close>

theorem shell_env_keeps_existing_witness:
  "map_of (records (fst (shell_env demo_world ''/hook'' \<lparr>cwd = None\<rparr> 0 demo_heap)) 1) ''FOO''
     = Some ''existing'' \<and>
   records (fst (shell_env demo_world ''/hook'' \<lparr>cwd = None\<rparr> 0 demo_heap)) 1 =
     [(''FOO'', ''existing''), (''BAR'', ''baz''), (''NODE_ENV'', ''development'')] \<and>
   merge_loaded Object_prototype_keys [(''toString'', ''x'')] [] = []"
proof -
  note keep = shell_env_keeps_existing [of demo_heap 0 demo_world "''/hook''" "\<lparr>cwd = None\<rparr>",
      unfolded Let_def, THEN conjunct1, rule_format, of "''FOO''" "''existing''"]
  have 1: "map_of (records (fst (shell_env demo_world ''/hook'' \<lparr>cwd = None\<rparr> 0 demo_heap)) 1)
      ''FOO'' = Some ''existing''"
    using keep by (simp add: demo_heap_def)
  have 2: "records (fst (shell_env demo_world ''/hook'' \<lparr>cwd = None\<rparr> 0 demo_heap)) 1 =
     [(''FOO'', ''existing''), (''BAR'', ''baz''), (''NODE_ENV'', ''development'')]"
    by (simp add: shell_env_def demo_heap_def demo_world_def demo_access_def demo_parse_def
        slash_join_def loadDotEnvFiles_def candidate_files_def effective_nodeEnv_def js_or_def
        truthy_def js_or_default_def fileExists_def config_def has_key_def log_error_def
        no_effects_def in_op_def inherited_keys_def Object_prototype_keys_def Let_def)
  have 3: "merge_loaded Object_prototype_keys [(''toString'', ''x'')] [] = []"
    by (simp add: in_op_def has_key_def Object_prototype_keys_def)
  show ?thesis using 1 2 3 by simp
qed

text \<open>
  Claim C8. If neither \<open>output.env\<close> nor the loaded mapping has \<open>NODE_ENV\<close>, the hook
  sets it to the name it computed, which is the name \<open>loadDotEnvFiles\<close> used (the files
  probed are the candidates of that name); if \<open>output.env\<close> had \<open>NODE_ENV\<close>, its value
  is unchanged.
\<close>

theorem shell_env_sets_NODE_ENV:
  "(let a = output_env h output;
        h' = fst (shell_env w directory input output h);
        basePath = (case cwd input of Some c \<Rightarrow> c | None \<Rightarrow> directory);
        ne = js_or_default (process_env_NODE_ENV w) ''development'';
        opts = \<lparr>nodeEnv = Some ne, overload = None\<rparr>
    in (map_of (records h a) ''NODE_ENV'' = None \<and>
        map_of (fst (loadDotEnvFiles w basePath opts)) ''NODE_ENV'' = None \<longrightarrow>
          map_of (records h' a) ''NODE_ENV'' = Some ne) \<and>
       (\<forall>v. map_of (records h a) ''NODE_ENV'' = Some v \<longrightarrow>
          map_of (records h' a) ''NODE_ENV'' = Some v) \<and>
       effective_nodeEnv w opts = ne \<and>
       accessed (snd (shell_env w directory input output h)) = candidate_files w basePath ne)"
proof -
  have "accessed (snd (shell_env w directory input output h)) =
      candidate_files w (case cwd input of Some c \<Rightarrow> c | None \<Rightarrow> directory)
        (js_or_default (process_env_NODE_ENV w) ''development'')"
    using accessed_forward_pass [of w _ "[]" no_effects]
    by (simp add: shell_env_unfold Let_def no_effects_def)
  then show ?thesis
    by (simp add: Let_def shell_env_lookup hook_nodeEnv_effective loadDotEnvFiles_no_overload
        NODE_ENV_not_inherited)
qed

theorem shell_env_sets_NODE_ENV_witness:
  "map_of (records (fst (shell_env demo_world ''/hook'' \<lparr>cwd = None\<rparr> 0 demo_heap)) 1)
     ''NODE_ENV'' = Some ''development'' \<and>
   map_of (records (fst (shell_env demo_world ''/hook'' \<lparr>cwd = None\<rparr> 0
      (demo_heap\<lparr>records := (\<lambda>_. [(''NODE_ENV'', ''staging'')])\<rparr>))) 1)
     ''NODE_ENV'' = Some ''staging''"
proof -
  let ?h2 = "demo_heap\<lparr>records := (\<lambda>_. [(''NODE_ENV'', ''staging'')])\<rparr>"
  note absent = shell_env_sets_NODE_ENV [of demo_heap 0 demo_world "''/hook''"
      "\<lparr>cwd = None\<rparr>", unfolded Let_def, THEN conjunct1, rule_format]
  note present = shell_env_sets_NODE_ENV [of ?h2 0 demo_world "''/hook''"
      "\<lparr>cwd = None\<rparr>", unfolded Let_def, THEN conjunct2, THEN conjunct1, rule_format,
      of "''staging''"]
  have ne: "js_or_default (process_env_NODE_ENV demo_world) ''development'' = ''development''"
    by (simp add: demo_world_def js_or_default_def)
  have "map_of (records (fst (shell_env demo_world ''/hook'' \<lparr>cwd = None\<rparr> 0 demo_heap))
      (output_env demo_heap 0)) ''NODE_ENV''
      = Some (js_or_default (process_env_NODE_ENV demo_world) ''development'')"
  proof (rule absent, intro conjI)
    show "map_of (records demo_heap (output_env demo_heap 0)) ''NODE_ENV'' = None"
      by (simp add: demo_heap_def)
    show "map_of (fst (loadDotEnvFiles demo_world
        (case cwd \<lparr>cwd = None\<rparr> of None \<Rightarrow> ''/hook'' | Some c \<Rightarrow> c)
        \<lparr>nodeEnv = Some (js_or_default (process_env_NODE_ENV demo_world) ''development''),
           overload = None\<rparr>)) ''NODE_ENV'' = None"
      unfolding ne
      by (simp add: demo_world_def demo_access_def demo_parse_def slash_join_def
          loadDotEnvFiles_def candidate_files_def effective_nodeEnv_def js_or_def truthy_def
          js_or_default_def fileExists_def config_def has_key_def log_error_def
          no_effects_def Let_def)
  qed
  then have 1: "map_of (records (fst (shell_env demo_world ''/hook'' \<lparr>cwd = None\<rparr> 0
      demo_heap)) 1) ''NODE_ENV'' = Some ''development''"
    unfolding ne by (simp add: demo_heap_def)
  have "map_of (records (fst (shell_env demo_world ''/hook'' \<lparr>cwd = None\<rparr> 0 ?h2))
      (output_env ?h2 0)) ''NODE_ENV'' = Some ''staging''"
    by (rule present) simp
  then have 2: "map_of (records (fst (shell_env demo_world ''/hook'' \<lparr>cwd = None\<rparr> 0 ?h2)) 1)
      ''NODE_ENV'' = Some ''staging''"
    by (simp add: demo_heap_def)
  show ?thesis using 1 2 by (rule conjI)
qed

section \<open>The hook: no overload\<close>

text \<open>
  Claim C9. The hook passes only \<open>nodeEnv\<close> to \<open>loadDotEnvFiles\<close>, so whatever the
  world, the directory and the input, its effects are those of the first pass alone: the
  four candidates are probed once, in precedence order, and there is no second, reversed
  round. For a key for which \<open>key in output.env\<close> is false, the value written is the one
  of the first candidate that exists and defines it, where what a file defines is the
  parser's answer in the one non-destructive call the loop makes for it.
\<close>

theorem shell_env_never_overloads:
  "(let basePath = (case cwd input of Some c \<Rightarrow> c | None \<Rightarrow> directory);
        ne = js_or_default (process_env_NODE_ENV w) ''development'';
        files = candidate_files w basePath ne;
        a = output_env h output;
        run = shell_env w directory input output h
    in snd run = snd (forward_pass w files ([], no_effects)) \<and>
       accessed (snd run) = files \<and>
       (\<forall>higher f lower k v.
          files = higher @ f # lower \<and>
          (\<forall>i<length higher. fileExists w (higher ! i) \<longrightarrow>
             map_of (parsed (parse w (higher ! i)
                (fst (forward_pass w (take i higher) ([], no_effects))) False)) k = None) \<and>
          fileExists w f \<and>
          map_of (parsed (parse w f (fst (forward_pass w higher ([], no_effects))) False)) k
            = Some v \<and>
          \<not> in_op k (inherited_keys h a) (records h a) \<longrightarrow>
          map_of (records (fst run) a) k = Some v))"
proof -
  let ?basePath = "case cwd input of Some c \<Rightarrow> c | None \<Rightarrow> directory"
  let ?ne = "js_or_default (process_env_NODE_ENV w) ''development''"
  let ?files = "candidate_files w ?basePath ?ne"
  let ?a = "output_env h output"
  let ?run = "shell_env w directory input output h"
  have fx: "snd ?run = snd (forward_pass w ?files ([], no_effects))"
    by (simp add: shell_env_unfold Let_def)
  have probes: "accessed (snd ?run) = ?files"
    using accessed_forward_pass [of w ?files "[]" no_effects]
    by (simp add: fx no_effects_def)
  have first: "map_of (records (fst ?run) ?a) k = Some v"
    if "?files = higher @ f # lower"
      and "\<forall>i<length higher. fileExists w (higher ! i) \<longrightarrow>
             map_of (parsed (parse w (higher ! i)
                (fst (forward_pass w (take i higher) ([], no_effects))) False)) k = None"
      and "fileExists w f"
      and "map_of (parsed (parse w f (fst (forward_pass w higher ([], no_effects))) False)) k
            = Some v"
      and "\<not> in_op k (inherited_keys h ?a) (records h ?a)" for higher f lower k v
    using forward_pass_first_wins [OF that(2,3,4), of lower] that(1,5)
    by (simp add: shell_env_lookup in_op_def has_key_def)
  from fx probes first show ?thesis
    unfolding Let_def by (intro conjI allI impI) (assumption | elim conjE)+
qed

text \<open>
  The hook run with \<open>cwd = /app\<close> and the parser that answers with the target's value for
  a key the target holds: four probes, and \<open>BAR\<close> comes from \<open>.env\<close>.
\<close>

theorem shell_env_never_overloads_witness:
  "accessed (snd (shell_env echo_world ''/elsewhere'' \<lparr>cwd = Some ''/app''\<rparr> 0 demo_heap)) =
     [''/app/.env.development.local'', ''/app/.env.development'', ''/app/.env.local'',
      ''/app/.env''] \<and>
   map_of (records (fst (shell_env echo_world ''/elsewhere'' \<lparr>cwd = Some ''/app''\<rparr> 0
     demo_heap)) 1) ''BAR'' = Some ''baz''"
proof -
  note all = shell_env_never_overloads [of "''/elsewhere''" "\<lparr>cwd = Some ''/app''\<rparr>"
      echo_world demo_heap 0, unfolded Let_def]
  note defs = echo_world_def echo_parse_def echo_def demo_world_def demo_access_def
    demo_parse_def slash_join_def candidate_files_def fileExists_def config_def has_key_def
    log_error_def no_effects_def Let_def
  have ne: "js_or_default (process_env_NODE_ENV echo_world) ''development'' = ''development''"
    by (simp add: echo_world_def demo_world_def js_or_default_def)
  have 1: "accessed (snd (shell_env echo_world ''/elsewhere'' \<lparr>cwd = Some ''/app''\<rparr> 0
      demo_heap)) =
     [''/app/.env.development.local'', ''/app/.env.development'', ''/app/.env.local'',
      ''/app/.env'']"
    using all [THEN conjunct2, THEN conjunct1] unfolding ne
    by (simp add: candidate_files_def echo_world_def demo_world_def slash_join_def)
  have "map_of (records (fst (shell_env echo_world ''/elsewhere'' \<lparr>cwd = Some ''/app''\<rparr> 0
      demo_heap)) (output_env demo_heap 0)) ''BAR'' = Some ''baz''"
  proof (rule all [THEN conjunct2, THEN conjunct2, rule_format,
        of "[''/app/.env.development.local'', ''/app/.env.development'', ''/app/.env.local'']"
           "''/app/.env''" "[]" "''BAR''" "''baz''"])
    let ?higher = "[''/app/.env.development.local'', ''/app/.env.development'',
      ''/app/.env.local'']"
    show "candidate_files echo_world
        (case cwd \<lparr>cwd = Some ''/app''\<rparr> of None \<Rightarrow> ''/elsewhere'' | Some c \<Rightarrow> c)
        (js_or_default (process_env_NODE_ENV echo_world) ''development'') =
        ?higher @ ''/app/.env'' # [] \<and>
      (\<forall>i<length ?higher. fileExists echo_world (?higher ! i) \<longrightarrow>
          map_of (parsed (parse echo_world (?higher ! i)
            (fst (forward_pass echo_world (take i ?higher) ([], no_effects))) False)) ''BAR''
            = None) \<and>
      fileExists echo_world ''/app/.env'' \<and>
      map_of (parsed (parse echo_world ''/app/.env''
        (fst (forward_pass echo_world ?higher ([], no_effects))) False)) ''BAR'' = Some ''baz'' \<and>
      \<not> in_op ''BAR'' (inherited_keys demo_heap (output_env demo_heap 0))
         (records demo_heap (output_env demo_heap 0))"
      unfolding ne
      by (simp add: defs All_less_Suc demo_heap_def in_op_def inherited_keys_def
          Object_prototype_keys_def)
  qed
  then have 2: "map_of (records (fst (shell_env echo_world ''/elsewhere''
      \<lparr>cwd = Some ''/app''\<rparr> 0 demo_heap)) 1) ''BAR'' = Some ''baz''"
    by (simp add: demo_heap_def)
  show ?thesis using 1 2 by (rule conjI)
qed

end
